theory Spec2Isabelle
  imports Complex_Main
begin

section \<open>JavaScript values used by the DataTable view pipeline\<close>

text \<open>
  The component \<^verbatim>\<open>DataTable\<close> (\<^verbatim>\<open>src/components/DataTable.tsx\<close>) derives the rows it
  shows from its props \<^verbatim>\<open>data\<close>, \<^verbatim>\<open>config\<close> and from its React state. This theory
  embeds the functions that compute that view.

  Strings are sequences of code units; the embedding covers the code units below 256
  (Latin-1), one \<^typ>\<open>char\<close> each.

  A field of a row is a string, \<^verbatim>\<open>null\<close>, or absent (\<^verbatim>\<open>undefined\<close>). The pipeline
  reads a field only through \<^verbatim>\<open>String(...)\<close> (and \<^verbatim>\<open>Date.parse\<close>, which converts its
  argument to a string first), so a numeric field is represented by its string form.
\<close>

datatype jsval = Undefined | Null | Str string

text \<open>\<^verbatim>\<open>String(v)\<close>\<close>

fun ToString :: "jsval \<Rightarrow> string" where
  "ToString Undefined = ''undefined''"
| "ToString Null = ''null''"
| "ToString (Str s) = s"

text \<open>\<^verbatim>\<open>v ?? ""\<close>\<close>

fun orEmpty :: "jsval \<Rightarrow> jsval" where
  "orEmpty Undefined = Str ''''"
| "orEmpty Null = Str ''''"
| "orEmpty (Str s) = Str s"

text \<open>
  A row is an object: its own properties in order, each key once. Keys are column keys;
  the names that every object inherits (\<^verbatim>\<open>constructor\<close>, \<^verbatim>\<open>toString\<close>, ...) are not among
  them.
\<close>

type_synonym row = "(string \<times> jsval) list"

text \<open>\<^verbatim>\<open>r[k]\<close>\<close>

definition getProp :: "row \<Rightarrow> string \<Rightarrow> jsval" where
  "getProp r k = (case map_of r k of None \<Rightarrow> Undefined | Some v \<Rightarrow> v)"

subsection \<open>String operations\<close>

text \<open>
  \<^verbatim>\<open>String.prototype.toLowerCase\<close> on Latin-1: \<^verbatim>\<open>A\<close>..\<^verbatim>\<open>Z\<close> and the accented capitals
  U+00C0..U+00DE (without the multiplication sign U+00D7) move up by 32.
\<close>

definition lowerChar :: "char \<Rightarrow> char" where
  "lowerChar c =
     (let n = (of_char c :: nat)
      in if (65 \<le> n \<and> n \<le> 90) \<or> (192 \<le> n \<and> n \<le> 222 \<and> n \<noteq> 215)
         then char_of (n + 32) else c)"

definition toLowerCase :: "string \<Rightarrow> string" where
  "toLowerCase s = map lowerChar s"

fun startsWith :: "string \<Rightarrow> string \<Rightarrow> bool" where
  "startsWith s [] = True"
| "startsWith [] (c # cs) = False"
| "startsWith (x # xs) (c # cs) = (x = c \<and> startsWith xs cs)"

definition endsWith :: "string \<Rightarrow> string \<Rightarrow> bool" where
  "endsWith s t = startsWith (rev s) (rev t)"

text \<open>\<^verbatim>\<open>s.includes(t)\<close>: \<^verbatim>\<open>t\<close> occurs in \<^verbatim>\<open>s\<close> at some position.\<close>

fun js_includes :: "string \<Rightarrow> string \<Rightarrow> bool" where
  "js_includes [] t = (t = [])"
| "js_includes (x # xs) t = (startsWith (x # xs) t \<or> js_includes xs t)"

text \<open>White space and line terminators below 256, as \<^verbatim>\<open>trim\<close> and \<^verbatim>\<open>parseFloat\<close> skip them.\<close>

definition isWhiteSpace :: "char \<Rightarrow> bool" where
  "isWhiteSpace c = ((of_char c :: nat) \<in> {9, 10, 11, 12, 13, 32, 160})"

definition trimStart :: "string \<Rightarrow> string" where
  "trimStart s = dropWhile isWhiteSpace s"

definition trim :: "string \<Rightarrow> string" where
  "trim s = rev (dropWhile isWhiteSpace (rev (dropWhile isWhiteSpace s)))"

definition isDigit :: "char \<Rightarrow> bool" where
  "isDigit c = (48 \<le> (of_char c :: nat) \<and> (of_char c :: nat) \<le> 57)"

subsection \<open>Numbers\<close>

text \<open>
  A Number is NaN, an infinity, or a finite binary64 value, carried as the rational it
  denotes. The two zeros are one value: the pipeline only subtracts, negates and compares
  numbers, and none of these tells \<^verbatim>\<open>-0\<close> from \<^verbatim>\<open>+0\<close>.
\<close>

datatype jsnum = NaN | PInf | NInf | Fin rat

function bitLength :: "int \<Rightarrow> int" where
  "bitLength n = (if n \<le> 0 then 0 else 1 + bitLength (n div 2))"
  by pat_completeness auto
termination
  by (relation "measure nat") auto

declare bitLength.simps [simp del]

text \<open>\<open>floorLog2 p q\<close> is \<open>\<lfloor>log\<^sub>2 (p / q)\<rfloor>\<close> for positive \<open>p\<close>, \<open>q\<close>.\<close>

definition floorLog2 :: "int \<Rightarrow> int \<Rightarrow> int" where
  "floorLog2 p q =
     (let t = bitLength p - bitLength q
      in if (if 0 \<le> t then q * 2 ^ nat t \<le> p else q \<le> p * 2 ^ nat (- t)) then t else t - 1)"

text \<open>
  Rounding of a non-negative rational \<open>p / q\<close> (\<open>0 \<le> p\<close>, \<open>0 < q\<close>) to binary64, to
  nearest and ties to even: 53 bits of significand, exponents down to \<open>-1074\<close>
  (subnormals), overflow at \<open>2 ^ 1024\<close>.
\<close>

definition roundPos :: "int \<Rightarrow> int \<Rightarrow> jsnum" where
  "roundPos p q =
     (if p = 0 then Fin 0
      else
        let e = max (floorLog2 p q - 52) (- 1074);
            N = (if 0 \<le> e then p else p * 2 ^ nat (- e));
            D = (if 0 \<le> e then q * 2 ^ nat e else q);
            m = N div D;
            r = N mod D;
            m' = (if D < 2 * r \<or> (2 * r = D \<and> odd m) then m + 1 else m);
            v = (if 0 \<le> e then rat_of_int m' * 2 ^ nat e else rat_of_int m' / 2 ^ nat (- e))
        in if 2 ^ 1024 \<le> v then PInf else Fin v)"

fun js_neg :: "jsnum \<Rightarrow> jsnum" where
  "js_neg NaN = NaN"
| "js_neg PInf = NInf"
| "js_neg NInf = PInf"
| "js_neg (Fin x) = Fin (- x)"

definition round64 :: "rat \<Rightarrow> jsnum" where
  "round64 x =
     (let (p, q) = quotient_of x
      in if 0 \<le> p then roundPos p q else js_neg (roundPos (- p) q))"

text \<open>\<^verbatim>\<open>a - b\<close>\<close>

fun js_sub :: "jsnum \<Rightarrow> jsnum \<Rightarrow> jsnum" where
  "js_sub NaN b = NaN"
| "js_sub a NaN = NaN"
| "js_sub PInf PInf = NaN"
| "js_sub NInf NInf = NaN"
| "js_sub PInf b = PInf"
| "js_sub NInf b = NInf"
| "js_sub (Fin x) PInf = NInf"
| "js_sub (Fin x) NInf = PInf"
| "js_sub (Fin x) (Fin y) = round64 (x - y)"

text \<open>\<^verbatim>\<open>a < b\<close> and \<^verbatim>\<open>a > b\<close> on numbers: false as soon as one side is NaN.\<close>

fun js_lt :: "jsnum \<Rightarrow> jsnum \<Rightarrow> bool" where
  "js_lt NaN b = False"
| "js_lt a NaN = False"
| "js_lt PInf b = False"
| "js_lt a NInf = False"
| "js_lt NInf b = True"
| "js_lt (Fin x) PInf = True"
| "js_lt (Fin x) (Fin y) = (x < y)"

definition js_gt :: "jsnum \<Rightarrow> jsnum \<Rightarrow> bool" where
  "js_gt a b = js_lt b a"

text \<open>\<^verbatim>\<open>isFinite(x)\<close> and \<^verbatim>\<open>isNaN(x)\<close>\<close>

fun isFinite :: "jsnum \<Rightarrow> bool" where
  "isFinite (Fin x) = True"
| "isFinite x = False"

fun isNaN :: "jsnum \<Rightarrow> bool" where
  "isNaN NaN = True"
| "isNaN x = False"

subsection \<open>\<^verbatim>\<open>parseFloat\<close>\<close>

text \<open>
  \<^verbatim>\<open>parseFloat(s)\<close> skips leading white space and reads the longest prefix that is a
  \<^verbatim>\<open>StrDecimalLiteral\<close>: an optional sign, then \<^verbatim>\<open>Infinity\<close> or decimal digits with an
  optional fraction and an optional exponent. No such prefix gives NaN. The value read is
  rounded to binary64; the exact value is rounded (ECMAScript also lets an engine round a
  literal of more than 20 significant digits from its first 20).
\<close>

definition digitsValue :: "string \<Rightarrow> int" where
  "digitsValue ds = fold (\<lambda>c n. 10 * n + ((of_char c :: int) - 48)) ds 0"

text \<open>The exponent part at the head of \<open>s\<close>; 0 when there is none.\<close>

definition exponentPart :: "string \<Rightarrow> int" where
  "exponentPart s =
     (case s of
        [] \<Rightarrow> 0
      | c # r \<Rightarrow>
          if c = CHR ''e'' \<or> c = CHR ''E'' then
            (case r of
               [] \<Rightarrow> 0
             | d # r' \<Rightarrow>
                 if d = CHR ''+'' then
                   (if takeWhile isDigit r' = [] then 0 else digitsValue (takeWhile isDigit r'))
                 else if d = CHR ''-'' then
                   (if takeWhile isDigit r' = [] then 0 else - digitsValue (takeWhile isDigit r'))
                 else
                   (if takeWhile isDigit r = [] then 0 else digitsValue (takeWhile isDigit r)))
          else 0)"

definition parseUnsigned :: "string \<Rightarrow> jsnum" where
  "parseUnsigned s =
     (if startsWith s ''Infinity'' then PInf
      else
        let ip = takeWhile isDigit s;
            r1 = dropWhile isDigit s;
            hasDot = (r1 \<noteq> [] \<and> hd r1 = CHR ''.'');
            fp = (if hasDot then takeWhile isDigit (tl r1) else []);
            r2 = (if hasDot then dropWhile isDigit (tl r1) else r1)
        in if ip = [] \<and> fp = [] then NaN
           else
             let k = exponentPart r2 - int (length fp);
                 d = digitsValue (ip @ fp)
             in if 0 \<le> k then roundPos (d * 10 ^ nat k) 1 else roundPos d (10 ^ nat (- k)))"

definition parseFloat :: "string \<Rightarrow> jsnum" where
  "parseFloat s =
     (case trimStart s of
        [] \<Rightarrow> NaN
      | c # r \<Rightarrow>
          if c = CHR ''+'' then parseUnsigned r
          else if c = CHR ''-'' then js_neg (parseUnsigned r)
          else parseUnsigned (c # r))"


section \<open>Configuration and state of the component\<close>

text \<open>
  \<^verbatim>\<open>ColumnConfig\<close> without \<^verbatim>\<open>render\<close>, which the pipeline never reads. An optional
  property is an \<open>option\<close>: \<open>None\<close> is \<^verbatim>\<open>undefined\<close>.
\<close>

datatype FormatType = TypeText | TypeNumber | TypeDate | TypeCurrency

datatype Transform = Uppercase | Lowercase | Capitalize

record Format =
  ftype :: "FormatType option"
  transform :: "Transform option"
  currency :: "string option"
  decimals :: "int option"

record ColumnConfig =
  key :: string
  header :: "string option"
  visible :: "bool option"
  searchable :: "bool option"
  sortable :: "bool option"
  filterable :: "bool option"
  format :: "Format option"
  width :: "int option"

record TableConfig =
  columns :: "ColumnConfig list"
  globalSearchDebounceMs :: "int option"
  pageSizes :: "int list option"
  defaultPageSize :: "int option"

datatype Operator = Contains | Equals | Starts | Ends | Gt | Lt

record FilterCondition =
  op :: Operator
  cvalue :: string

datatype SortDir = Asc | Desc

text \<open>\<^verbatim>\<open>sortState\<close>: \<^verbatim>\<open>{ key, dir }\<close>, \<^verbatim>\<open>dir\<close> being \<^verbatim>\<open>"asc"\<close>, \<^verbatim>\<open>"desc"\<close> or \<^verbatim>\<open>null\<close>.\<close>

record SortState =
  sortKey :: string
  dir :: "SortDir option"

text \<open>
  The state hooks of \<^verbatim>\<open>DataTable\<close>. \<^verbatim>\<open>selectedRows\<close> is a \<^verbatim>\<open>Set<number>\<close>: its
  members in insertion order. \<^verbatim>\<open>columnVisible\<close> and \<^verbatim>\<open>columnFilters\<close> are objects used as
  dictionaries: their entries in the order \<^verbatim>\<open>Object.entries\<close> lists them.
\<close>

record TableState =
  searchTerm :: string
  debouncedSearch :: string
  pageSize :: int
  page :: int
  selectedRows :: "int list"
  columnVisible :: "(string \<times> bool) list"
  columnFilters :: "(string \<times> FilterCondition list) list"
  sortState :: SortState

text \<open>
  What the debounce timer stores in \<^verbatim>\<open>debouncedSearch\<close>:
  \<^verbatim>\<open>searchTerm.trim().toLowerCase()\<close>.
\<close>

definition effectiveSearch :: "string \<Rightarrow> string" where
  "effectiveSearch raw = toLowerCase (trim raw)"

text \<open>A condition that reads an optional boolean: \<^verbatim>\<open>undefined\<close> and \<^verbatim>\<open>false\<close> fail it.\<close>

fun truthy :: "bool option \<Rightarrow> bool" where
  "truthy (Some b) = b"
| "truthy None = False"

text \<open>
  What the engine provides and this theory leaves open: \<^verbatim>\<open>String.prototype.localeCompare\<close>
  (a negative number, zero or a positive number, by the collation of the host's locale) and
  \<^verbatim>\<open>Date.parse\<close> (a time value, or NaN).
\<close>

record Engine =
  localeCompare :: "string \<Rightarrow> string \<Rightarrow> jsnum"
  dateParse :: "jsval \<Rightarrow> jsnum"

section \<open>Value comparator\<close>

text \<open>\<^verbatim>\<open>s.replace(/[^0-9.-]/g, "")\<close>\<close>

definition stripNonNumeric :: "string \<Rightarrow> string" where
  "stripNonNumeric s = filter (\<lambda>c. isDigit c \<or> c = CHR ''.'' \<or> c = CHR ''-'') s"

definition compareValues :: "Engine \<Rightarrow> jsval \<Rightarrow> jsval \<Rightarrow> FormatType option \<Rightarrow> jsnum" where
  "compareValues E a b type =
     (if type = Some TypeNumber \<or> type = Some TypeCurrency then
        let na = parseFloat (stripNonNumeric (ToString a));
            nb = parseFloat (stripNonNumeric (ToString b))
        in if \<not> isFinite na \<or> \<not> isFinite nb
           then localeCompare E (ToString a) (ToString b)
           else js_sub na nb
      else if type = Some TypeDate then
        let da = dateParse E a;
            db = dateParse E b
        in js_sub (if isNaN da then Fin 0 else da) (if isNaN db then Fin 0 else db)
      else localeCompare E (ToString a) (ToString b))"

section \<open>Filter evaluator\<close>

definition applyFilterCondition :: "string \<Rightarrow> FilterCondition \<Rightarrow> bool" where
  "applyFilterCondition v cond =
     (let left = toLowerCase (ToString (orEmpty (Str v)));
          right = toLowerCase (ToString (orEmpty (Str (cvalue cond))))
      in case op cond of
           Contains \<Rightarrow> js_includes left right
         | Equals \<Rightarrow> left = right
         | Starts \<Rightarrow> startsWith left right
         | Ends \<Rightarrow> endsWith left right
         | Gt \<Rightarrow> js_gt (parseFloat left) (parseFloat right)
         | Lt \<Rightarrow> js_lt (parseFloat left) (parseFloat right))"

section \<open>The stages of \<^verbatim>\<open>filteredRows\<close>\<close>

text \<open>\<^verbatim>\<open>config.columns.filter((c) => columnVisible[c.key])\<close>\<close>

definition visibleColumns :: "ColumnConfig list \<Rightarrow> (string \<times> bool) list \<Rightarrow> ColumnConfig list" where
  "visibleColumns cols cv = filter (\<lambda>c. truthy (map_of cv (key c))) cols"

text \<open>The predicate of the search filter, for one row.\<close>

definition searchMatches :: "string \<Rightarrow> ColumnConfig list \<Rightarrow> row \<Rightarrow> bool" where
  "searchMatches term vcols r =
     list_ex (\<lambda>col. if \<not> truthy (searchable col) then False
                    else js_includes (toLowerCase (ToString (orEmpty (getProp r (key col))))) term)
       vcols"

definition searchStage :: "string \<Rightarrow> ColumnConfig list \<Rightarrow> row list \<Rightarrow> row list" where
  "searchStage term vcols rows =
     (if term \<noteq> [] then filter (searchMatches term vcols) rows else rows)"

text \<open>The body of the \<^verbatim>\<open>forEach\<close> over \<^verbatim>\<open>Object.entries(columnFilters)\<close>.\<close>

definition filterStep :: "string \<times> FilterCondition list \<Rightarrow> row list \<Rightarrow> row list" where
  "filterStep e rows =
     (case e of (colKey, conditions) \<Rightarrow>
        if conditions = [] then rows
        else filter (\<lambda>r. list_ex (\<lambda>cond.
               applyFilterCondition (ToString (orEmpty (getProp r colKey))) cond) conditions) rows)"

definition filterStage :: "(string \<times> FilterCondition list) list \<Rightarrow> row list \<Rightarrow> row list" where
  "filterStage cf rows = fold filterStep cf rows"

text \<open>
  \<^verbatim>\<open>Array.prototype.sort(comparefn)\<close>: a stable sort; a NaN from the comparator counts as
  zero. Modelled as a stable insertion sort, which is what every stable sort computes when
  the comparator is consistent (the order is implementation-defined when it is not).
\<close>

fun insertSorted :: "('a \<Rightarrow> 'a \<Rightarrow> jsnum) \<Rightarrow> 'a \<Rightarrow> 'a list \<Rightarrow> 'a list" where
  "insertSorted cmp x [] = [x]"
| "insertSorted cmp x (y # ys) =
     (if js_gt (cmp x y) (Fin 0) then y # insertSorted cmp x ys else x # y # ys)"

definition js_sort :: "('a \<Rightarrow> 'a \<Rightarrow> jsnum) \<Rightarrow> 'a list \<Rightarrow> 'a list" where
  "js_sort cmp xs = foldr (insertSorted cmp) xs []"

text \<open>\<^verbatim>\<open>col?.format?.type\<close>\<close>

definition formatTypeOf :: "ColumnConfig option \<Rightarrow> FormatType option" where
  "formatTypeOf col = Option.bind col (\<lambda>c. Option.bind (format c) ftype)"

text \<open>The comparator handed to \<^verbatim>\<open>rows.sort\<close>.\<close>

definition sortComparator :: "Engine \<Rightarrow> SortState \<Rightarrow> ColumnConfig list \<Rightarrow> row \<Rightarrow> row \<Rightarrow> jsnum" where
  "sortComparator E st cols a b =
     (let col = find (\<lambda>c. key c = sortKey st) cols;
          cmp = compareValues E (getProp a (sortKey st)) (getProp b (sortKey st)) (formatTypeOf col)
      in if dir st = Some Asc then cmp else js_neg cmp)"

definition sortStage :: "Engine \<Rightarrow> SortState \<Rightarrow> ColumnConfig list \<Rightarrow> row list \<Rightarrow> row list" where
  "sortStage E st cols rows =
     (if sortKey st \<noteq> [] \<and> dir st \<noteq> None then js_sort (sortComparator E st cols) rows else rows)"

text \<open>The value of the \<^verbatim>\<open>filteredRows\<close> memo, as a function of its dependencies.\<close>

definition filteredRows ::
  "Engine \<Rightarrow> row list \<Rightarrow> string \<Rightarrow> (string \<times> FilterCondition list) list \<Rightarrow> SortState \<Rightarrow>
   ColumnConfig list \<Rightarrow> ColumnConfig list \<Rightarrow> row list" where
  "filteredRows E data term cf st vcols cols =
     sortStage E st cols (filterStage cf (searchStage term vcols data))"


section \<open>Pagination\<close>

text \<open>
  Row counts, page numbers and page sizes are integers. For the counts an array can hold,
  the binary64 quotient \<^verbatim>\<open>totalRows / pageSize\<close> and the exact one have the same ceiling.

  \<^verbatim>\<open>Math.max(1, Math.ceil(totalRows / pageSize))\<close>. A page size of zero makes the quotient
  \<^verbatim>\<open>Infinity\<close> or NaN, and so the result: \<open>None\<close>.
\<close>

definition totalPages :: "int \<Rightarrow> int \<Rightarrow> int option" where
  "totalPages totalRows ps =
     (if ps = 0 then None else Some (max 1 (- ((- totalRows) div ps))))"

text \<open>The effect \<^verbatim>\<open>if (page > totalPages) setPage(totalPages)\<close>: the page after it ran.\<close>

definition clampPageEffect :: "int \<Rightarrow> int \<Rightarrow> int" where
  "clampPageEffect p tp = (if tp < p then tp else p)"

text \<open>
  The handler of the page-number input, on the number read from the input:
  \<^verbatim>\<open>setPage(Math.min(Math.max(1, n), totalPages))\<close>.
\<close>

definition requestPage :: "int \<Rightarrow> int \<Rightarrow> int" where
  "requestPage n tp = min (max 1 n) tp"

text \<open>\<^verbatim>\<open>xs.slice(start, end)\<close>: a negative index counts from the end.\<close>

definition js_slice :: "'a list \<Rightarrow> int \<Rightarrow> int \<Rightarrow> 'a list" where
  "js_slice xs start end =
     (let len = int (length xs);
          k = (if start < 0 then max (len + start) 0 else min start len);
          final = (if end < 0 then max (len + end) 0 else min end len)
      in take (nat (final - k)) (drop (nat k) xs))"

definition pageRows :: "'a list \<Rightarrow> int \<Rightarrow> int \<Rightarrow> 'a list" where
  "pageRows rows p ps = (let start = (p - 1) * ps in js_slice rows start (start + ps))"

section \<open>The view of one render\<close>

text \<open>
  What one render derives from the props and the state: the rows of the page,
  \<^verbatim>\<open>totalRows\<close> and \<^verbatim>\<open>totalPages\<close>.
\<close>

definition viewResult ::
  "Engine \<Rightarrow> row list \<Rightarrow> TableConfig \<Rightarrow> TableState \<Rightarrow> row list \<times> int \<times> int option" where
  "viewResult E data config s =
     (let vcols = visibleColumns (columns config) (columnVisible s);
          rows = filteredRows E data (debouncedSearch s) (columnFilters s) (sortState s)
                   vcols (columns config);
          totalRows = int (length rows)
      in (pageRows rows (page s) (pageSize s), totalRows, totalPages totalRows (pageSize s)))"

section \<open>Selection\<close>

text \<open>The operations of \<^verbatim>\<open>Set\<close> on the members in insertion order.\<close>

definition set_add :: "int \<Rightarrow> int list \<Rightarrow> int list" where
  "set_add x s = (if x \<in> set s then s else s @ [x])"

definition set_delete :: "int \<Rightarrow> int list \<Rightarrow> int list" where
  "set_delete x s = filter (\<lambda>y. y \<noteq> x) s"

text \<open>\<^verbatim>\<open>for (let i = start; i <= end; i++) next.add(i)\<close>\<close>

function addRange :: "int \<Rightarrow> int \<Rightarrow> int list \<Rightarrow> int list" where
  "addRange i end s = (if i \<le> end then addRange (i + 1) end (set_add i s) else s)"
  by pat_completeness auto
termination
  by (relation "measure (\<lambda>(i, end, s). nat (end + 1 - i))") auto

declare addRange.simps [simp del]

record MouseEvent =
  shiftKey :: bool
  ctrlKey :: bool
  metaKey :: bool

text \<open>
  The updater that \<^verbatim>\<open>toggleRowSelection\<close> passes to \<^verbatim>\<open>setSelectedRows\<close>, with the
  \<^verbatim>\<open>page\<close> and \<^verbatim>\<open>pageSize\<close> it closes over. The event is optional.
\<close>

definition toggleRowSelection ::
  "int \<Rightarrow> int \<Rightarrow> int \<Rightarrow> MouseEvent option \<Rightarrow> int list \<Rightarrow> int list" where
  "toggleRowSelection p ps indexInPage event prev =
     (let globalIndex = (p - 1) * ps + indexInPage;
          next = prev
      in if (case event of None \<Rightarrow> False | Some e \<Rightarrow> shiftKey e) \<and> 0 < length next then
           let lst = last next;
               start = min lst globalIndex;
               end = max lst globalIndex
           in addRange start end next
         else if (case event of None \<Rightarrow> False | Some e \<Rightarrow> ctrlKey e \<or> metaKey e) then
           (if globalIndex \<in> set next then set_delete globalIndex next
            else set_add globalIndex next)
         else
           (if globalIndex \<in> set next \<and> length next = 1 then []
            else set_add globalIndex []))"

section \<open>\<^verbatim>\<open>filteredRows\<close> on a store of arrays\<close>

text \<open>
  Arrays are objects: \<^verbatim>\<open>slice\<close> and \<^verbatim>\<open>filter\<close> allocate a new array, \<^verbatim>\<open>sort\<close> reorders
  the array it is called on. A store lists the arrays allocated so far; a reference is a
  position in it. The rows themselves are never written to.
\<close>

type_synonym ref = nat
type_synonym store = "row list list"

definition array_slice :: "ref \<Rightarrow> store \<Rightarrow> ref \<times> store" where
  "array_slice a h = (length h, h @ [h ! a])"

definition array_filter :: "(row \<Rightarrow> bool) \<Rightarrow> ref \<Rightarrow> store \<Rightarrow> ref \<times> store" where
  "array_filter P a h = (length h, h @ [filter P (h ! a)])"

definition array_sort :: "(row \<Rightarrow> row \<Rightarrow> jsnum) \<Rightarrow> ref \<Rightarrow> store \<Rightarrow> ref \<times> store" where
  "array_sort cmp a h = (a, h[a := js_sort cmp (h ! a)])"

text \<open>One turn of the \<^verbatim>\<open>forEach\<close>, on the variable \<^verbatim>\<open>rows\<close> and the store.\<close>

definition filterStepRef :: "string \<times> FilterCondition list \<Rightarrow> ref \<times> store \<Rightarrow> ref \<times> store" where
  "filterStepRef e rs =
     (case e of (colKey, conditions) \<Rightarrow>
        if conditions = [] then rs
        else array_filter (\<lambda>r. list_ex (\<lambda>cond.
               applyFilterCondition (ToString (orEmpty (getProp r colKey))) cond) conditions)
               (fst rs) (snd rs))"

text \<open>
  The body of the \<^verbatim>\<open>filteredRows\<close> memo: \<^verbatim>\<open>data\<close> is a reference, and so is the result.
  A reference that the store does not hold cannot occur in the program: \<open>None\<close>.
\<close>

definition filteredRowsRef ::
  "Engine \<Rightarrow> ref \<Rightarrow> string \<Rightarrow> (string \<times> FilterCondition list) list \<Rightarrow> SortState \<Rightarrow>
   ColumnConfig list \<Rightarrow> ColumnConfig list \<Rightarrow> store \<Rightarrow> (ref \<times> store) option" where
  "filteredRowsRef E data term cf st vcols cols h =
     (if length h \<le> data then None
      else
        let rs0 = array_slice data h;
            rs1 = (if term \<noteq> [] then array_filter (searchMatches term vcols) (fst rs0) (snd rs0)
                   else rs0);
            rs2 = fold filterStepRef cf rs1;
            rs3 = (if sortKey st \<noteq> [] \<and> dir st \<noteq> None
                   then array_sort (sortComparator E st cols) (fst rs2) (snd rs2)
                   else rs2)
        in Some rs3)"


section \<open>Auxiliary notions and example inputs\<close>

text \<open>
  A click on a row, on the selection paired with the global index touched last. The
  component keeps no such index: it is tracked here only to state what a range click would
  do if it did.
\<close>

definition clickRow ::
  "int \<Rightarrow> int \<Rightarrow> int \<Rightarrow> MouseEvent option \<Rightarrow> int list \<times> int option \<Rightarrow> int list \<times> int option" where
  "clickRow p ps i ev st = (toggleRowSelection p ps i ev (fst st), Some ((p - 1) * ps + i))"

text \<open>
  \<open>keepsStore h0 rs\<close>: the reference of \<open>rs\<close> was allocated after \<open>h0\<close>, and the store of
  \<open>rs\<close> still holds the arrays of \<open>h0\<close> as they were.
\<close>

definition keepsStore :: "store \<Rightarrow> ref \<times> store \<Rightarrow> bool" where
  "keepsStore h0 rs \<longleftrightarrow>
     length h0 \<le> fst rs \<and> fst rs < length (snd rs) \<and> take (length h0) (snd rs) = h0"

text \<open>An engine for the examples: strings compared by code units, no date recognised.\<close>

fun ordinalCompare :: "string \<Rightarrow> string \<Rightarrow> jsnum" where
  "ordinalCompare [] [] = Fin 0"
| "ordinalCompare [] (y # ys) = Fin (- 1)"
| "ordinalCompare (x # xs) [] = Fin 1"
| "ordinalCompare (x # xs) (y # ys) =
     (if (of_char x :: nat) < of_char y then Fin (- 1)
      else if (of_char y :: nat) < of_char x then Fin 1
      else ordinalCompare xs ys)"

definition sampleEngine :: Engine where
  "sampleEngine = \<lparr>localeCompare = ordinalCompare, dateParse = (\<lambda>v. NaN)\<rparr>"

definition nameColumn :: ColumnConfig where
  "nameColumn = \<lparr>key = ''name'', header = None, visible = None, searchable = Some True,
     sortable = Some True, filterable = Some True, format = None, width = None\<rparr>"

definition amountColumn :: ColumnConfig where
  "amountColumn = \<lparr>key = ''amount'', header = None, visible = None, searchable = None,
     sortable = Some True, filterable = Some True,
     format = Some \<lparr>ftype = Some TypeNumber, transform = None, currency = None, decimals = None\<rparr>,
     width = None\<rparr>"

definition sampleConfig :: TableConfig where
  "sampleConfig = \<lparr>columns = [nameColumn, amountColumn], globalSearchDebounceMs = None,
     pageSizes = None, defaultPageSize = None\<rparr>"

definition rowOf :: "string \<Rightarrow> string \<Rightarrow> row" where
  "rowOf n a = [(''name'', Str n), (''amount'', Str a)]"

definition sampleData :: "row list" where
  "sampleData = [rowOf ''Alice'' ''10'', rowOf ''Bob'' ''9'', rowOf ''alina'' ''$1,200.50'']"

definition shownState :: TableState where
  "shownState = \<lparr>searchTerm = ''Ali'', debouncedSearch = ''ali'', pageSize = 5, page = 1,
     selectedRows = [], columnVisible = [(''name'', True), (''amount'', True)],
     columnFilters = [], sortState = \<lparr>sortKey = [], dir = None\<rparr>\<rparr>"

text \<open>The same state after the column \<^verbatim>\<open>name\<close> was hidden.\<close>

definition hiddenState :: TableState where
  "hiddenState = shownState\<lparr>columnVisible := [(''name'', False), (''amount'', True)]\<rparr>"

text \<open>The same state with another input buffer and a selection.\<close>

definition typingState :: TableState where
  "typingState = shownState\<lparr>searchTerm := ''Alic'', selectedRows := [1, 0]\<rparr>"

definition sampleFilters :: "(string \<times> FilterCondition list) list" where
  "sampleFilters =
     [(''name'', [\<lparr>op = Contains, cvalue = ''AL''\<rparr>, \<lparr>op = Starts, cvalue = ''bo''\<rparr>]),
      (''amount'', [\<lparr>op = Gt, cvalue = ''9.5''\<rparr>]),
      (''issuer'', [])]"

definition plainEvent :: MouseEvent where
  "plainEvent = \<lparr>shiftKey = False, ctrlKey = False, metaKey = False\<rparr>"

definition shiftEvent :: MouseEvent where
  "shiftEvent = \<lparr>shiftKey = True, ctrlKey = False, metaKey = False\<rparr>"

definition ctrlEvent :: MouseEvent where
  "ctrlEvent = \<lparr>shiftKey = False, ctrlKey = True, metaKey = False\<rparr>"

section \<open>Properties of the stages\<close>

subsection \<open>Strings\<close>

lemma startsWith_iff: "startsWith s t \<longleftrightarrow> (\<exists>q. s = t @ q)"
  by (induction s t rule: startsWith.induct) auto

lemma endsWith_iff: "endsWith s t \<longleftrightarrow> (\<exists>p. s = p @ t)"
proof -
  have "endsWith s t \<longleftrightarrow> (\<exists>q. rev s = rev t @ q)"
    by (simp add: endsWith_def startsWith_iff)
  also have "\<dots> \<longleftrightarrow> (\<exists>p. s = p @ t)"
  proof
    assume "\<exists>q. rev s = rev t @ q"
    then obtain q where "rev s = rev t @ q" by blast
    then have "rev (rev s) = rev (rev t @ q)" by simp
    then have "s = rev q @ t" by simp
    then show "\<exists>p. s = p @ t" by blast
  next
    assume "\<exists>p. s = p @ t"
    then obtain p where "s = p @ t" by blast
    then have "rev s = rev t @ rev p" by simp
    then show "\<exists>q. rev s = rev t @ q" by blast
  qed
  finally show ?thesis .
qed

lemma js_includes_iff: "js_includes s t \<longleftrightarrow> (\<exists>p q. s = p @ t @ q)"
proof (induction s)
  case Nil
  show ?case by auto
next
  case (Cons x xs)
  show ?case
  proof
    assume "js_includes (x # xs) t"
    then consider "startsWith (x # xs) t" | "js_includes xs t" by auto
    then show "\<exists>p q. x # xs = p @ t @ q"
    proof cases
      case 1
      then obtain q where "x # xs = t @ q" by (auto simp: startsWith_iff)
      then have "x # xs = [] @ t @ q" by simp
      then show ?thesis by blast
    next
      case 2
      then obtain p q where "xs = p @ t @ q" using Cons.IH by blast
      then have "x # xs = (x # p) @ t @ q" by simp
      then show ?thesis by blast
    qed
  next
    assume "\<exists>p q. x # xs = p @ t @ q"
    then obtain p q where pq: "x # xs = p @ t @ q" by blast
    show "js_includes (x # xs) t"
    proof (cases p)
      case Nil
      with pq have "startsWith (x # xs) t" by (auto simp: startsWith_iff)
      then show ?thesis by simp
    next
      case (Cons y p')
      with pq have "xs = p' @ t @ q" by simp
      then have "js_includes xs t" using Cons.IH by blast
      then show ?thesis by simp
    qed
  qed
qed

lemma lowerChar_idem: "lowerChar (lowerChar c) = lowerChar c"
proof -
  define n where "n = (of_char c :: nat)"
  define up where "up m \<longleftrightarrow> (65 \<le> m \<and> m \<le> 90) \<or> (192 \<le> m \<and> m \<le> 222 \<and> m \<noteq> 215)" for m :: nat
  have low: "lowerChar d = (if up (of_char d) then char_of (of_char d + 32 :: nat) else d)" for d
    by (simp add: lowerChar_def Let_def up_def)
  show ?thesis
  proof (cases "up n")
    case True
    then have "n + 32 < 256" and "\<not> up (n + 32)" unfolding up_def by arith+
    then have "(of_char (char_of (n + 32) :: char) :: nat) = n + 32" and "\<not> up (n + 32)"
      by (simp_all add: of_char_of)
    then have "lowerChar (char_of (n + 32)) = char_of (n + 32)"
      by (simp only: low if_False)
    moreover have "lowerChar c = char_of (n + 32)"
      using True by (simp only: low n_def[symmetric] if_True)
    ultimately show ?thesis by simp
  next
    case False
    then have "lowerChar c = c"
      by (simp only: low n_def[symmetric] if_False)
    then show ?thesis by simp
  qed
qed

lemma toLowerCase_idem: "toLowerCase (toLowerCase s) = toLowerCase s"
  by (simp add: toLowerCase_def lowerChar_idem)

lemma includes_lower_iff:
  "js_includes (toLowerCase s) t \<longleftrightarrow> (\<exists>p u q. s = p @ u @ q \<and> toLowerCase u = t)"
proof
  assume "js_includes (toLowerCase s) t"
  then obtain p' q' where "map lowerChar s = p' @ (t @ q')"
    unfolding js_includes_iff toLowerCase_def by blast
  then obtain p r where s: "s = p @ r" and r: "map lowerChar r = t @ q'"
    by (metis map_eq_append_conv)
  from r obtain u q where "r = u @ q" and "map lowerChar u = t"
    by (metis map_eq_append_conv)
  with s have "s = p @ u @ q \<and> toLowerCase u = t"
    by (simp add: toLowerCase_def)
  then show "\<exists>p u q. s = p @ u @ q \<and> toLowerCase u = t" by blast
next
  assume "\<exists>p u q. s = p @ u @ q \<and> toLowerCase u = t"
  then obtain p u q where "s = p @ u @ q" and "toLowerCase u = t" by blast
  then have "toLowerCase s = toLowerCase p @ t @ toLowerCase q"
    by (auto simp: toLowerCase_def)
  then show "js_includes (toLowerCase s) t"
    unfolding js_includes_iff by blast
qed

subsection \<open>Column filters\<close>

lemma filterStep_filter:
  "filterStep (k, conds) rows =
     filter (\<lambda>r. conds \<noteq> [] \<longrightarrow>
        (\<exists>c \<in> set conds. applyFilterCondition (ToString (orEmpty (getProp r k))) c)) rows"
  by (simp add: filterStep_def list_ex_iff)

lemma fold_filterStep:
  "fold filterStep cf rows =
     filter (\<lambda>r. \<forall>(k, conds) \<in> set cf. conds \<noteq> [] \<longrightarrow>
        (\<exists>c \<in> set conds. applyFilterCondition (ToString (orEmpty (getProp r k))) c)) rows"
proof (induction cf arbitrary: rows)
  case Nil
  show ?case by simp
next
  case (Cons e cf)
  obtain k conds where e: "e = (k, conds)" by (cases e)
  have "fold filterStep (e # cf) rows = fold filterStep cf (filterStep (k, conds) rows)"
    by (simp add: e)
  also have "\<dots> = filter (\<lambda>r. \<forall>(k, conds) \<in> set cf. conds \<noteq> [] \<longrightarrow>
        (\<exists>c \<in> set conds. applyFilterCondition (ToString (orEmpty (getProp r k))) c))
        (filterStep (k, conds) rows)"
    by (rule Cons.IH)
  also have "\<dots> = filter (\<lambda>r. \<forall>(k, conds) \<in> set (e # cf). conds \<noteq> [] \<longrightarrow>
        (\<exists>c \<in> set conds. applyFilterCondition (ToString (orEmpty (getProp r k))) c)) rows"
    unfolding filterStep_filter filter_filter by (rule filter_cong) (auto simp: e)
  finally show ?case .
qed

text \<open>
  Claim C2. The filter stage keeps a row exactly when, for every entry of the filter map
  that has at least one condition, some condition of that entry matches the row's value
  for that column: OR within a column, AND across columns, and no constraint from a
  column without conditions.
\<close>

theorem filter_stage_or_within_and_across:
  "filterStage cf rows =
     filter (\<lambda>r. \<forall>(k, conds) \<in> set cf. conds \<noteq> [] \<longrightarrow>
        (\<exists>c \<in> set conds. applyFilterCondition (ToString (orEmpty (getProp r k))) c)) rows"
  unfolding filterStage_def by (rule fold_filterStep)

theorem filter_stage_or_within_and_across_witness:
  "filterStage sampleFilters sampleData =
     filter (\<lambda>r. \<forall>(k, conds) \<in> set sampleFilters. conds \<noteq> [] \<longrightarrow>
        (\<exists>c \<in> set conds. applyFilterCondition (ToString (orEmpty (getProp r k))) c)) sampleData
   \<and> filterStage sampleFilters sampleData = [rowOf ''Alice'' ''10'']"
proof -
  have "filterStage sampleFilters sampleData = [rowOf ''Alice'' ''10'']" by code_simp
  with filter_stage_or_within_and_across[of sampleFilters sampleData] show ?thesis by simp
qed

subsection \<open>Global search\<close>

text \<open>
  Claim C3, as the component computes it. With a non-empty search term a row survives the
  search stage exactly when some column that is currently visible and marked searchable
  has a string representation whose lower-case form contains the term; with the empty term
  the stage returns its input. A searchable column that is hidden is not searched. For an
  effective search term, which is in lower case, the containment is that of a substring
  up to case.
\<close>

theorem search_stage_visible_searchable:
  "searchStage term (visibleColumns cols cv) rows =
     (if term = [] then rows
      else filter (\<lambda>r. \<exists>c \<in> set cols. truthy (map_of cv (key c)) \<and> truthy (searchable c) \<and>
             js_includes (toLowerCase (ToString (orEmpty (getProp r (key c))))) term) rows) \<and>
   (js_includes (toLowerCase s) (effectiveSearch raw) \<longleftrightarrow>
      (\<exists>p u q. s = p @ u @ q \<and> toLowerCase u = toLowerCase (effectiveSearch raw)))"
proof -
  have "searchStage term (visibleColumns cols cv) rows =
     (if term = [] then rows
      else filter (\<lambda>r. \<exists>c \<in> set cols. truthy (map_of cv (key c)) \<and> truthy (searchable c) \<and>
             js_includes (toLowerCase (ToString (orEmpty (getProp r (key c))))) term) rows)"
  proof (cases "term = []")
    case True
    then show ?thesis by (simp add: searchStage_def)
  next
    case False
    have "filter (searchMatches term (visibleColumns cols cv)) rows =
          filter (\<lambda>r. \<exists>c \<in> set cols. truthy (map_of cv (key c)) \<and> truthy (searchable c) \<and>
               js_includes (toLowerCase (ToString (orEmpty (getProp r (key c))))) term) rows"
      by (rule filter_cong) (auto simp: searchMatches_def visibleColumns_def list_ex_iff)
    with False show ?thesis by (simp add: searchStage_def)
  qed
  moreover have "js_includes (toLowerCase s) (effectiveSearch raw) \<longleftrightarrow>
      (\<exists>p u q. s = p @ u @ q \<and> toLowerCase u = toLowerCase (effectiveSearch raw))"
    by (simp add: includes_lower_iff effectiveSearch_def toLowerCase_idem)
  ultimately show ?thesis by blast
qed

theorem search_stage_visible_searchable_witness:
  "effectiveSearch '' Ali '' = ''ali'' \<and>
   searchStage ''ali'' (visibleColumns [nameColumn, amountColumn] (columnVisible shownState)) sampleData =
     [rowOf ''Alice'' ''10'', rowOf ''alina'' ''$1,200.50''] \<and>
   searchStage [] (visibleColumns [nameColumn, amountColumn] (columnVisible shownState)) sampleData =
     sampleData"
proof -
  have e: "effectiveSearch '' Ali '' = ''ali''" by code_simp
  have "filter (\<lambda>r. \<exists>c \<in> set [nameColumn, amountColumn].
            truthy (map_of (columnVisible shownState) (key c)) \<and> truthy (searchable c) \<and>
            js_includes (toLowerCase (ToString (orEmpty (getProp r (key c))))) ''ali'') sampleData =
        [rowOf ''Alice'' ''10'', rowOf ''alina'' ''$1,200.50'']"
    by code_simp
  then show ?thesis
    using search_stage_visible_searchable[of "''ali''" "[nameColumn, amountColumn]"
            "columnVisible shownState" sampleData, THEN conjunct1]
          search_stage_visible_searchable[of "[]" "[nameColumn, amountColumn]"
            "columnVisible shownState" sampleData, THEN conjunct1]
          e
    by simp
qed

text \<open>
  Claim C3 as stated fails: the column \<^verbatim>\<open>name\<close> is marked searchable and holds
  \<^verbatim>\<open>Alice\<close>, which contains the term \<^verbatim>\<open>ali\<close> when case is ignored, yet with that column
  hidden the search stage drops the row.
\<close>

theorem search_skips_hidden_column:
  "truthy (searchable nameColumn) \<and>
   js_includes (toLowerCase (ToString (orEmpty (getProp (rowOf ''Alice'' ''10'') (key nameColumn))))) ''ali'' \<and>
   searchStage ''ali'' (visibleColumns [nameColumn, amountColumn] (columnVisible hiddenState))
     [rowOf ''Alice'' ''10''] = []"
  by code_simp

subsection \<open>The view as a function of its inputs\<close>

text \<open>
  Claim C1, as the component computes it. The rows of the page, the number of filtered rows
  and the number of pages are determined by the record collection, the column
  configuration, the search term, the filter map, the sort state, the page, the page size
  and the column-visibility map: two renders that agree on these yield the same view,
  whatever the rest of the state is.
\<close>

theorem view_determined_by_inputs_and_visibility:
  assumes "debouncedSearch s = debouncedSearch s'"
    and "columnFilters s = columnFilters s'"
    and "sortState s = sortState s'"
    and "page s = page s'"
    and "pageSize s = pageSize s'"
    and "columnVisible s = columnVisible s'"
  shows "viewResult E data config s = viewResult E data config s'"
  using assms by (simp add: viewResult_def)

theorem view_determined_by_inputs_and_visibility_witness:
  "searchTerm shownState \<noteq> searchTerm typingState \<and>
   selectedRows shownState \<noteq> selectedRows typingState \<and>
   viewResult sampleEngine sampleData sampleConfig shownState =
   viewResult sampleEngine sampleData sampleConfig typingState"
proof -
  have "viewResult sampleEngine sampleData sampleConfig shownState =
        viewResult sampleEngine sampleData sampleConfig typingState"
    by (rule view_determined_by_inputs_and_visibility) (simp_all add: typingState_def)
  then show ?thesis by (simp add: typingState_def shownState_def)
qed

text \<open>
  Claim C1 as stated fails: two states with the same search term, filter map, sort state,
  page and page size, over the same collection and configuration, give different views
  when a searchable column is visible in one and hidden in the other.
\<close>

theorem view_not_determined_without_visibility:
  "debouncedSearch shownState = debouncedSearch hiddenState \<and>
   columnFilters shownState = columnFilters hiddenState \<and>
   sortState shownState = sortState hiddenState \<and>
   page shownState = page hiddenState \<and>
   pageSize shownState = pageSize hiddenState \<and>
   viewResult sampleEngine sampleData sampleConfig shownState \<noteq>
   viewResult sampleEngine sampleData sampleConfig hiddenState"
proof -
  have a: "fst (snd (viewResult sampleEngine sampleData sampleConfig shownState)) = 2"
    by code_simp
  have b: "fst (snd (viewResult sampleEngine sampleData sampleConfig hiddenState)) = 0"
    by code_simp
  from a b have "viewResult sampleEngine sampleData sampleConfig shownState \<noteq>
                 viewResult sampleEngine sampleData sampleConfig hiddenState"
    by auto
  then show ?thesis by (simp add: hiddenState_def)
qed

subsection \<open>Pagination\<close>

lemma ceil_div: "- ((- n) div ps) = \<lceil>real_of_int n / real_of_int ps\<rceil>"
proof -
  have "\<lceil>real_of_int n / real_of_int ps\<rceil> = - \<lfloor>real_of_int (- n) / real_of_int ps\<rfloor>"
    by (simp add: ceiling_def)
  also have "\<dots> = - ((- n) div ps)"
    by (simp only: floor_divide_of_int_eq)
  finally show ?thesis by simp
qed

lemma totalPages_pos:
  "0 < ps \<Longrightarrow> totalPages n ps = Some (max 1 \<lceil>real_of_int n / real_of_int ps\<rceil>)"
  by (simp add: totalPages_def ceil_div)

lemma take_drop_nth: "take m (drop k xs) = map ((!) xs) [k ..< min (k + m) (length xs)]"
  by (rule nth_equalityI) auto

lemma js_slice_range:
  assumes "0 \<le> a" "a \<le> b"
  shows "js_slice xs a b = map ((!) xs) [nat a ..< min (nat b) (length xs)]"
proof (cases "a \<le> int (length xs)")
  case True
  have "js_slice xs a b = take (nat (min b (int (length xs)) - a)) (drop (nat a) xs)"
    using assms True by (simp add: js_slice_def Let_def)
  also have "\<dots> = map ((!) xs) [nat a ..< min (nat a + nat (min b (int (length xs)) - a)) (length xs)]"
    by (rule take_drop_nth)
  also have "min (nat a + nat (min b (int (length xs)) - a)) (length xs) = min (nat b) (length xs)"
    using assms True by (simp add: min_def) linarith
  finally show ?thesis .
next
  case False
  then have "js_slice xs a b = []"
    using assms by (simp add: js_slice_def Let_def)
  moreover have "[nat a ..< min (nat b) (length xs)] = []"
    using False assms by simp
  ultimately show ?thesis by simp
qed

lemma pageRows_range:
  assumes "0 < ps" "1 \<le> p"
  shows "pageRows rows p ps = map ((!) rows) [nat ((p - 1) * ps) ..< min (nat (p * ps)) (length rows)]"
proof -
  have a: "0 \<le> (p - 1) * ps" using assms by simp
  have b: "(p - 1) * ps + ps = p * ps" by (simp add: algebra_simps)
  show ?thesis
    unfolding pageRows_def Let_def b using js_slice_range[OF a, of "p * ps" rows] assms
    by (simp add: algebra_simps)
qed

text \<open>
  Claim C4. For a positive page size: the number of pages is \<open>max 1 \<lceil>n / pageSize\<rceil>\<close>; a
  requested page above it is set to it and one below 1 is set to 1, by the handler of the
  page input, and the effect sets a current page above it to it; the rows of page \<open>p\<close> are
  those at the positions from \<open>(p - 1) * pageSize\<close> up to, not including, \<open>p * pageSize\<close>,
  cut at the end of the rows. The witness is the case of 7 rows, page size 5 and
  requested page 10: 2 pages, page 2, and the rows at positions 5 and 6.
\<close>

theorem pagination_total_clamp_slice:
  assumes "0 < ps"
  shows "\<exists>tp. totalPages (int (length rows)) ps = Some tp \<and>
           tp = max 1 \<lceil>real (length rows) / real_of_int ps\<rceil> \<and>
           (\<forall>req. requestPage req tp = (if tp < req then tp else if req < 1 then 1 else req)) \<and>
           (\<forall>p. clampPageEffect p tp = (if tp < p then tp else p)) \<and>
           (\<forall>p. 1 \<le> p \<longrightarrow> pageRows rows p ps =
                  map ((!) rows) [nat ((p - 1) * ps) ..< min (nat (p * ps)) (length rows)])"
proof -
  define tp where "tp = max 1 \<lceil>real (length rows) / real_of_int ps\<rceil>"
  have t: "totalPages (int (length rows)) ps = Some tp"
    using totalPages_pos[OF assms, of "int (length rows)"] by (simp add: tp_def)
  have "1 \<le> tp" by (simp add: tp_def)
  then have r: "\<forall>req. requestPage req tp = (if tp < req then tp else if req < 1 then 1 else req)"
    by (auto simp: requestPage_def)
  have c: "\<forall>p. clampPageEffect p tp = (if tp < p then tp else p)"
    by (simp add: clampPageEffect_def)
  have s: "\<forall>p. 1 \<le> p \<longrightarrow> pageRows rows p ps =
                  map ((!) rows) [nat ((p - 1) * ps) ..< min (nat (p * ps)) (length rows)]"
    using pageRows_range[OF assms] by blast
  from t r c s tp_def show ?thesis by blast
qed

theorem pagination_total_clamp_slice_witness:
  "(0::int) < 5 \<and> totalPages (int (length [0, 1, 2, 3, 4, 5, 6 :: nat])) 5 = Some 2 \<and>
   requestPage 10 2 = 2 \<and> clampPageEffect 10 2 = 2 \<and>
   pageRows [0, 1, 2, 3, 4, 5, 6 :: nat] 2 5 = [5, 6]"
proof -
  from pagination_total_clamp_slice[of 5 "[0, 1, 2, 3, 4, 5, 6 :: nat]"]
  obtain tp where tp: "totalPages (int (length [0, 1, 2, 3, 4, 5, 6 :: nat])) 5 = Some tp"
    and rq: "\<forall>req. requestPage req tp = (if tp < req then tp else if req < 1 then 1 else req)"
    and ce: "\<forall>p. clampPageEffect p tp = (if tp < p then tp else p)"
    and sl: "\<forall>p. 1 \<le> p \<longrightarrow> pageRows [0, 1, 2, 3, 4, 5, 6 :: nat] p 5 =
               map ((!) [0, 1, 2, 3, 4, 5, 6 :: nat])
                 [nat ((p - 1) * 5) ..< min (nat (p * 5)) (length [0, 1, 2, 3, 4, 5, 6 :: nat])]"
    by auto
  have tp2: "tp = 2" using tp by (simp add: totalPages_def)
  have "pageRows [0, 1, 2, 3, 4, 5, 6 :: nat] 2 5 =
          map ((!) [0, 1, 2, 3, 4, 5, 6 :: nat])
            [nat ((2 - 1) * 5) ..< min (nat (2 * 5)) (length [0, 1, 2, 3, 4, 5, 6 :: nat])]"
    using sl by simp
  also have "\<dots> = [5, 6]" by code_simp
  finally have "pageRows [0, 1, 2, 3, 4, 5, 6 :: nat] 2 5 = [5, 6]" .
  with tp rq ce tp2 show ?thesis by simp
qed

subsection \<open>Selection\<close>

lemma set_addRange: "set (addRange i e s) = set s \<union> {i..e}"
proof (induction i e s rule: addRange.induct)
  case (1 i e s)
  show ?case
  proof (cases "i \<le> e")
    case True
    then have "set (addRange i e s) = set (set_add i s) \<union> {i + 1..e}"
      using "1.IH" by (simp add: addRange.simps[of i e s])
    also have "\<dots> = set s \<union> {i..e}"
    proof -
      have "{i..e} = insert i {i + 1..e}" using True by auto
      then show ?thesis by (auto simp: set_add_def)
    qed
    finally show ?thesis .
  next
    case False
    then show ?thesis by (simp add: addRange.simps[of i e s])
  qed
qed

text \<open>
  Claim C8, as the component computes it. On a non-empty selection \<open>S\<close>, a click with the
  shift key on global index \<open>g\<close> yields \<open>S\<close> united with the closed interval between \<open>g\<close> and
  the member of \<open>S\<close> inserted last (the anchor is read off the set; no last-touched index
  is kept), and removes nothing. In particular a plain click on 2, then a shift click on 6,
  selects 2, 3, 4, 5, 6, and a plain click on 4 after that selects 4 alone.
\<close>

theorem shift_click_extends_from_last_member:
  "(S \<noteq> [] \<and> shiftKey e \<longrightarrow>
      set (toggleRowSelection p ps i (Some e) S) =
      set S \<union> {min (last S) ((p - 1) * ps + i) .. max (last S) ((p - 1) * ps + i)}) \<and>
   toggleRowSelection 1 ps 6 (Some shiftEvent) (toggleRowSelection 1 ps 2 (Some plainEvent) []) = [2, 3, 4, 5, 6] \<and>
   toggleRowSelection 1 ps 4 (Some plainEvent) [2, 3, 4, 5, 6] = [4]"
proof -
  have "set (toggleRowSelection p ps i (Some e) S) =
        set S \<union> {min (last S) ((p - 1) * ps + i) .. max (last S) ((p - 1) * ps + i)}"
    if "S \<noteq> []" "shiftKey e"
    using that by (simp add: toggleRowSelection_def Let_def set_addRange)
  moreover have "toggleRowSelection 1 ps 6 (Some shiftEvent) (toggleRowSelection 1 ps 2 (Some plainEvent) []) =
                 [2, 3, 4, 5, 6]"
    by (simp add: toggleRowSelection_def plainEvent_def shiftEvent_def set_add_def addRange.simps)
  moreover have "toggleRowSelection 1 ps 4 (Some plainEvent) [2, 3, 4, 5, 6] = [4]"
    by (simp add: toggleRowSelection_def plainEvent_def set_add_def)
  ultimately show ?thesis by blast
qed

theorem shift_click_extends_from_last_member_witness:
  "[6, 2 :: int] \<noteq> [] \<and> shiftKey shiftEvent \<and>
   set (toggleRowSelection 2 5 4 (Some shiftEvent) [6, 2]) = {2, 3, 4, 5, 6, 7, 8, 9}"
proof -
  have k: "shiftKey shiftEvent" by (simp add: shiftEvent_def)
  have "set (toggleRowSelection 2 5 4 (Some shiftEvent) [6, 2]) =
        set [6, 2] \<union> {min (last [6, 2]) ((2 - 1) * 5 + 4) .. max (last [6, 2]) ((2 - 1) * 5 + 4)}"
    using shift_click_extends_from_last_member[of "[6, 2]" shiftEvent 2 5 4] k by simp
  also have "\<dots> = {2, 3, 4, 5, 6, 7, 8, 9}" by (simp add: atLeastAtMost_def) auto
  finally show ?thesis using k by simp
qed

text \<open>
  Claim C8 as stated fails. Three clicks with the control key, on 2, on 8 and on 8 again,
  leave the selection \<open>{2}\<close> with 8 touched last. A shift click on 5 then selects 2, 3, 4, 5
  and not \<open>{2}\<close> united with the interval from 5 to 8.
\<close>

theorem shift_click_anchor_not_last_touched:
  "clickRow 1 10 8 (Some ctrlEvent) (clickRow 1 10 8 (Some ctrlEvent) (clickRow 1 10 2 (Some ctrlEvent) ([], None))) =
     ([2], Some 8) \<and>
   set (toggleRowSelection 1 10 5 (Some shiftEvent) [2]) \<noteq> set [2] \<union> {min 8 5 .. max 8 5}"
proof -
  have a: "clickRow 1 10 8 (Some ctrlEvent) (clickRow 1 10 8 (Some ctrlEvent) (clickRow 1 10 2 (Some ctrlEvent) ([], None))) =
           ([2], Some 8)"
    by (simp add: clickRow_def toggleRowSelection_def ctrlEvent_def set_add_def set_delete_def)
  have b: "toggleRowSelection 1 10 5 (Some shiftEvent) [2] = [2, 3, 4, 5]"
    by (simp add: toggleRowSelection_def shiftEvent_def set_add_def addRange.simps)
  have "(8::int) \<notin> set [2, 3, 4, 5]" by simp
  moreover have "(8::int) \<in> set [2] \<union> {min 8 5 .. max 8 5}" by simp
  ultimately have "set [2, 3, 4, 5] \<noteq> set [2] \<union> {min 8 5 .. max (8::int) 5}" by metis
  with a b show ?thesis by simp
qed

text \<open>
  Claim C10. On the empty selection a click with the shift key selects the clicked global
  index alone, as a plain click does.
\<close>

theorem shift_click_on_empty_selection:
  "shiftKey e \<Longrightarrow>
     toggleRowSelection p ps i (Some e) [] = [(p - 1) * ps + i] \<and>
     toggleRowSelection p ps i (Some e) [] = toggleRowSelection p ps i (Some plainEvent) []"
  by (simp add: toggleRowSelection_def plainEvent_def set_add_def Let_def)

theorem shift_click_on_empty_selection_witness:
  "shiftKey shiftEvent \<and> toggleRowSelection 3 5 2 (Some shiftEvent) [] = [12] \<and>
   toggleRowSelection 3 5 2 (Some plainEvent) [] = [12]"
proof -
  have k: "shiftKey shiftEvent" by (simp add: shiftEvent_def)
  from shift_click_on_empty_selection[OF k, of 3 5 2]
  have a: "toggleRowSelection 3 5 2 (Some shiftEvent) [] = [(3 - 1) * 5 + 2]"
    and b: "toggleRowSelection 3 5 2 (Some shiftEvent) [] = toggleRowSelection 3 5 2 (Some plainEvent) []"
    by blast+
  from b a have "toggleRowSelection 3 5 2 (Some plainEvent) [] = [(3 - 1) * 5 + 2]" by (rule subst)
  with a k show ?thesis by simp
qed

subsection \<open>The caller's array\<close>

lemma keepsStore_filter:
  assumes "keepsStore h0 (r, h)"
  shows "keepsStore h0 (array_filter P r h)" "snd (array_filter P r h) ! fst (array_filter P r h) = filter P (h ! r)"
  using assms by (auto simp: keepsStore_def array_filter_def)

lemma keepsStore_sort:
  assumes "keepsStore h0 (r, h)"
  shows "keepsStore h0 (array_sort cmp r h)" "snd (array_sort cmp r h) ! fst (array_sort cmp r h) = js_sort cmp (h ! r)"
  using assms by (auto simp: keepsStore_def array_sort_def)

lemma keepsStore_filterStepRef:
  assumes "keepsStore h0 rs"
  shows "keepsStore h0 (filterStepRef e rs) \<and> snd (filterStepRef e rs) ! fst (filterStepRef e rs) = filterStep e (snd rs ! fst rs)"
proof -
  obtain k conds where e: "e = (k, conds)" by (cases e)
  obtain r h where rs: "rs = (r, h)" by (cases rs)
  show ?thesis
    using assms keepsStore_filter[of h0 r h] unfolding e rs
    by (simp add: filterStepRef_def filterStep_def)
qed

lemma keepsStore_fold:
  assumes "keepsStore h0 rs"
  shows "keepsStore h0 (fold filterStepRef cf rs) \<and>
         snd (fold filterStepRef cf rs) ! fst (fold filterStepRef cf rs) = fold filterStep cf (snd rs ! fst rs)"
  using assms
proof (induction cf arbitrary: rs)
  case Nil
  then show ?case by simp
next
  case (Cons e cf)
  from keepsStore_filterStepRef[OF Cons.prems, of e] Cons.IH[of "filterStepRef e rs"]
  show ?case by simp
qed

lemma keepsStore_nth: "keepsStore h0 rs \<Longrightarrow> a < length h0 \<Longrightarrow> snd rs ! a = h0 ! a"
  by (metis keepsStore_def nth_take)

text \<open>
  Claim C9. Computing \<^verbatim>\<open>filteredRows\<close> returns a reference to an array other than
  \<^verbatim>\<open>data\<close> and leaves the array of \<^verbatim>\<open>data\<close>, like every array allocated before, with
  the elements and the order it had: the sort in place works on the copy. The array
  returned holds the rows that the stages compute from the contents of \<^verbatim>\<open>data\<close>.
\<close>

theorem filteredRowsRef_frame:
  assumes "data < length h"
  shows "\<exists>r h'. filteredRowsRef E data term cf st vcols cols h = Some (r, h') \<and>
           h' ! data = h ! data \<and> (\<forall>a < length h. h' ! a = h ! a) \<and> r \<noteq> data \<and>
           h' ! r = filteredRows E (h ! data) term cf st vcols cols"
proof -
  define rs0 where "rs0 = array_slice data h"
  define rs1 where "rs1 = (if term \<noteq> [] then array_filter (searchMatches term vcols) (fst rs0) (snd rs0) else rs0)"
  define rs2 where "rs2 = fold filterStepRef cf rs1"
  define rs3 where "rs3 = (if sortKey st \<noteq> [] \<and> dir st \<noteq> None
                   then array_sort (sortComparator E st cols) (fst rs2) (snd rs2) else rs2)"
  have res: "filteredRowsRef E data term cf st vcols cols h = Some rs3"
    using assms by (simp add: filteredRowsRef_def Let_def rs0_def rs1_def rs2_def rs3_def)
  have k0: "keepsStore h rs0" and c0: "snd rs0 ! fst rs0 = h ! data"
    by (simp_all add: rs0_def array_slice_def keepsStore_def)
  have k1: "keepsStore h rs1" and c1: "snd rs1 ! fst rs1 = searchStage term vcols (h ! data)"
    using k0 c0 keepsStore_filter[of h "fst rs0" "snd rs0" "searchMatches term vcols"]
    by (simp_all add: rs1_def searchStage_def)
  have k2: "keepsStore h rs2" and c2: "snd rs2 ! fst rs2 = filterStage cf (searchStage term vcols (h ! data))"
    using keepsStore_fold[OF k1, of cf] c1 by (simp_all add: rs2_def filterStage_def)
  have k3: "keepsStore h rs3" and c3: "snd rs3 ! fst rs3 = filteredRows E (h ! data) term cf st vcols cols"
    using k2 c2 keepsStore_sort[of h "fst rs2" "snd rs2" "sortComparator E st cols"]
    by (simp_all add: rs3_def filteredRows_def sortStage_def)
  have "\<forall>a < length h. snd rs3 ! a = h ! a"
    using keepsStore_nth[OF k3] by blast
  moreover have "fst rs3 \<noteq> data" using k3 assms by (auto simp: keepsStore_def)
  ultimately show ?thesis
    using res c3 assms by (intro exI[of _ "fst rs3"] exI[of _ "snd rs3"]) simp
qed

theorem filteredRowsRef_frame_witness:
  "(0::nat) < length [sampleData] \<and>
   filteredRowsRef sampleEngine 0 ''ali'' [] \<lparr>sortKey = ''name'', dir = Some Desc\<rparr>
     [nameColumn] [nameColumn, amountColumn] [sampleData] =
     Some (2, [sampleData, sampleData, [rowOf ''alina'' ''$1,200.50'', rowOf ''Alice'' ''10'']]) \<and>
   [sampleData, sampleData, [rowOf ''alina'' ''$1,200.50'', rowOf ''Alice'' ''10'']] ! 0 = sampleData"
proof -
  have e: "filteredRowsRef sampleEngine 0 ''ali'' [] \<lparr>sortKey = ''name'', dir = Some Desc\<rparr>
     [nameColumn] [nameColumn, amountColumn] [sampleData] =
     Some (2, [sampleData, sampleData, [rowOf ''alina'' ''$1,200.50'', rowOf ''Alice'' ''10'']])"
    by code_simp
  have "(0::nat) < length [sampleData]" by simp
  from filteredRowsRef_frame[OF this, of sampleEngine "''ali''" "[]"
         "\<lparr>sortKey = ''name'', dir = Some Desc\<rparr>" "[nameColumn]" "[nameColumn, amountColumn]"]
  obtain r h' where "filteredRowsRef sampleEngine 0 ''ali'' [] \<lparr>sortKey = ''name'', dir = Some Desc\<rparr>
     [nameColumn] [nameColumn, amountColumn] [sampleData] = Some (r, h')"
    and "h' ! 0 = [sampleData] ! 0"
    by blast
  with e show ?thesis by simp
qed

subsection \<open>Sorting\<close>

text \<open>
  Claim C5. With the direction \<^verbatim>\<open>null\<close> the sort stage returns its input unchanged. With
  the direction \<^verbatim>\<open>"desc"\<close> the comparator is, for every pair of rows, the negation of
  the comparator of the direction \<^verbatim>\<open>"asc"\<close> on the same column, and the descending sort
  is the sort by that negated comparator.
\<close>

theorem sort_none_identity_desc_negates:
  "sortStage E \<lparr>sortKey = k, dir = None\<rparr> cols rows = rows \<and>
   sortComparator E \<lparr>sortKey = k, dir = Some Desc\<rparr> cols a b =
     js_neg (sortComparator E \<lparr>sortKey = k, dir = Some Asc\<rparr> cols a b) \<and>
   (k \<noteq> [] \<longrightarrow>
      sortStage E \<lparr>sortKey = k, dir = Some Desc\<rparr> cols rows =
        js_sort (\<lambda>a b. js_neg (sortComparator E \<lparr>sortKey = k, dir = Some Asc\<rparr> cols a b)) rows)"
proof -
  have "sortComparator E \<lparr>sortKey = k, dir = Some Desc\<rparr> cols =
        (\<lambda>a b. js_neg (sortComparator E \<lparr>sortKey = k, dir = Some Asc\<rparr> cols a b))"
    by (intro ext) (simp add: sortComparator_def Let_def)
  then show ?thesis
    by (simp add: sortStage_def)
qed

theorem sort_none_identity_desc_negates_witness:
  "''name'' \<noteq> [] \<and>
   sortStage sampleEngine \<lparr>sortKey = ''name'', dir = Some Desc\<rparr> [nameColumn, amountColumn] sampleData =
     [rowOf ''alina'' ''$1,200.50'', rowOf ''Bob'' ''9'', rowOf ''Alice'' ''10'']"
proof -
  have "js_sort (\<lambda>a b. js_neg (sortComparator sampleEngine \<lparr>sortKey = ''name'', dir = Some Asc\<rparr>
          [nameColumn, amountColumn] a b)) sampleData =
        [rowOf ''alina'' ''$1,200.50'', rowOf ''Bob'' ''9'', rowOf ''Alice'' ''10'']"
    by code_simp
  with sort_none_identity_desc_negates[of sampleEngine "''name''" "[nameColumn, amountColumn]" sampleData]
  show ?thesis by simp
qed

subsection \<open>Comparing numbers and amounts\<close>

lemma isDigit_iff: "isDigit c \<longleftrightarrow> c \<in> set ''0123456789''"
proof
  assume "isDigit c"
  then have "(of_char c :: nat) \<in> {48, 49, 50, 51, 52, 53, 54, 55, 56, 57}"
    unfolding isDigit_def by (simp only: insert_iff empty_iff) arith
  then have "(of_char c :: nat) \<in> of_char ` set ''0123456789''"
    by simp
  then obtain d where "d \<in> set ''0123456789''" and "(of_char c :: nat) = of_char d"
    by blast
  then show "c \<in> set ''0123456789''"
    by (simp only: of_char_eq_iff)
next
  assume "c \<in> set ''0123456789''"
  then show "isDigit c" by (auto simp: isDigit_def)
qed

lemma stripNonNumeric_chars: "stripNonNumeric s = filter (\<lambda>c. c \<in> set ''0123456789.-'') s"
  unfolding stripNonNumeric_def by (rule filter_cong) (auto simp: isDigit_iff)

text \<open>
  Claim C6. For the format types \<^verbatim>\<open>number\<close> and \<^verbatim>\<open>currency\<close>, \<^verbatim>\<open>compareValues\<close> keeps of
  each string representation the digits, the dots and the minus signs, and parses what is
  left as a number. When both numbers are finite the result is their difference (in
  binary64); otherwise it is \<^verbatim>\<open>localeCompare\<close> on the two original string
  representations, with no case folding.
\<close>

theorem compareValues_number_currency:
  assumes "type = Some TypeNumber \<or> type = Some TypeCurrency"
  shows "compareValues E a b type =
           (let na = parseFloat (filter (\<lambda>c. c \<in> set ''0123456789.-'') (ToString a));
                nb = parseFloat (filter (\<lambda>c. c \<in> set ''0123456789.-'') (ToString b))
            in case (na, nb) of
                 (Fin x, Fin y) \<Rightarrow> round64 (x - y)
               | _ \<Rightarrow> localeCompare E (ToString a) (ToString b))"
proof -
  let ?na = "parseFloat (stripNonNumeric (ToString a))"
  let ?nb = "parseFloat (stripNonNumeric (ToString b))"
  have "compareValues E a b type =
          (if \<not> isFinite ?na \<or> \<not> isFinite ?nb then localeCompare E (ToString a) (ToString b)
           else js_sub ?na ?nb)"
    using assms by (auto simp: compareValues_def Let_def)
  also have "\<dots> = (case (?na, ?nb) of (Fin x, Fin y) \<Rightarrow> round64 (x - y)
                     | _ \<Rightarrow> localeCompare E (ToString a) (ToString b))"
    by (cases ?na; cases ?nb) simp_all
  finally show ?thesis by (simp add: stripNonNumeric_chars Let_def)
qed

theorem compareValues_number_currency_witness:
  "compareValues sampleEngine (Str ''$1,200.50'') (Str ''900'') (Some TypeCurrency) = Fin (601 / 2) \<and>
   compareValues sampleEngine (Str ''n/a'') (Str ''900'') (Some TypeNumber) =
     localeCompare sampleEngine ''n/a'' ''900''"
proof -
  have a: "parseFloat (filter (\<lambda>c. c \<in> set ''0123456789.-'') ''$1,200.50'') = Fin (2401 / 2)"
    by code_simp
  have b: "parseFloat (filter (\<lambda>c. c \<in> set ''0123456789.-'') ''900'') = Fin 900"
    by code_simp
  have c: "parseFloat (filter (\<lambda>c. c \<in> set ''0123456789.-'') ''n/a'') = NaN"
    by code_simp
  have d: "round64 (601 / 2) = Fin (601 / 2)"
    by code_simp
  have "compareValues sampleEngine (Str ''$1,200.50'') (Str ''900'') (Some TypeCurrency) = Fin (601 / 2)"
    using compareValues_number_currency[of "Some TypeCurrency" sampleEngine "Str ''$1,200.50''" "Str ''900''"]
    unfolding Let_def ToString.simps a b by (simp add: d)
  moreover have "compareValues sampleEngine (Str ''n/a'') (Str ''900'') (Some TypeNumber) =
     localeCompare sampleEngine ''n/a'' ''900''"
    using compareValues_number_currency[of "Some TypeNumber" sampleEngine "Str ''n/a''" "Str ''900''"]
    unfolding Let_def ToString.simps c b by simp
  ultimately show ?thesis by blast
qed

subsection \<open>One filter condition\<close>

text \<open>
  Claim C7, as the component computes it. \<^verbatim>\<open>applyFilterCondition\<close> has no operation that
  throws. It puts both sides in lower case first. \<^verbatim>\<open>contains\<close>, \<^verbatim>\<open>equals\<close>, \<^verbatim>\<open>starts\<close>
  and \<^verbatim>\<open>ends\<close> compare the two lower-case strings; \<^verbatim>\<open>gt\<close> and \<^verbatim>\<open>lt\<close> parse the two
  lower-case strings as numbers and compare the numbers, and are false as soon as one of
  them does not parse.
\<close>

theorem applyFilterCondition_semantics:
  "(case op c of
      Contains \<Rightarrow> applyFilterCondition v c \<longleftrightarrow> (\<exists>p q. toLowerCase v = p @ toLowerCase (cvalue c) @ q)
    | Equals \<Rightarrow> applyFilterCondition v c \<longleftrightarrow> toLowerCase v = toLowerCase (cvalue c)
    | Starts \<Rightarrow> applyFilterCondition v c \<longleftrightarrow> (\<exists>q. toLowerCase v = toLowerCase (cvalue c) @ q)
    | Ends \<Rightarrow> applyFilterCondition v c \<longleftrightarrow> (\<exists>p. toLowerCase v = p @ toLowerCase (cvalue c))
    | Gt \<Rightarrow> applyFilterCondition v c \<longleftrightarrow>
             js_gt (parseFloat (toLowerCase v)) (parseFloat (toLowerCase (cvalue c)))
    | Lt \<Rightarrow> applyFilterCondition v c \<longleftrightarrow>
             js_lt (parseFloat (toLowerCase v)) (parseFloat (toLowerCase (cvalue c)))) \<and>
   ((op c = Gt \<or> op c = Lt) \<and>
    (isNaN (parseFloat (toLowerCase v)) \<or> isNaN (parseFloat (toLowerCase (cvalue c)))) \<longrightarrow>
      \<not> applyFilterCondition v c)"
proof -
  have nan: "\<not> js_lt x y" if "isNaN x \<or> isNaN y" for x y
    using that by (cases x; cases y) simp_all
  show ?thesis
    using nan[of "parseFloat (toLowerCase v)" "parseFloat (toLowerCase (cvalue c))"]
          nan[of "parseFloat (toLowerCase (cvalue c))" "parseFloat (toLowerCase v)"]
    by (cases "op c")
       (auto simp: applyFilterCondition_def js_includes_iff startsWith_iff endsWith_iff js_gt_def)
qed

theorem applyFilterCondition_semantics_witness:
  "isNaN (parseFloat (toLowerCase ''abc'')) \<and>
   \<not> applyFilterCondition ''abc'' \<lparr>op = Gt, cvalue = ''5''\<rparr> \<and>
   applyFilterCondition ''Hello World'' \<lparr>op = Ends, cvalue = ''WORLD''\<rparr>"
proof -
  have n: "isNaN (parseFloat (toLowerCase ''abc''))" by code_simp
  have l: "toLowerCase ''Hello World'' = ''hello '' @ toLowerCase ''WORLD''" by code_simp
  have "\<not> applyFilterCondition ''abc'' \<lparr>op = Gt, cvalue = ''5''\<rparr>"
    using applyFilterCondition_semantics[where c = "\<lparr>op = Gt, cvalue = ''5''\<rparr>" and v = "''abc''"] n by auto
  moreover have "applyFilterCondition ''Hello World'' \<lparr>op = Ends, cvalue = ''WORLD''\<rparr>"
    using applyFilterCondition_semantics[where c = "\<lparr>op = Ends, cvalue = ''WORLD''\<rparr>"
            and v = "''Hello World''"] l
    by simp
  ultimately show ?thesis using n by blast
qed

text \<open>
  Claim C7 as stated fails where it has \<^verbatim>\<open>gt\<close> and \<^verbatim>\<open>lt\<close> parse the two sides as they
  are: \<^verbatim>\<open>Infinity\<close> parses as a number greater than 5, but the comparison is made on
  \<^verbatim>\<open>infinity\<close>, which does not parse.
\<close>

theorem relational_filter_parses_lower_case:
  "\<not> applyFilterCondition ''Infinity'' \<lparr>op = Gt, cvalue = ''5''\<rparr> \<and>
   js_gt (parseFloat ''Infinity'') (parseFloat ''5'')"
  by code_simp

end
